theory Spec2Isabelle
  imports Main "HOL-Library.Multiset"
begin

section \<open>Values, exceptions and the object state\<close>

text \<open>
  The Python values that can reach the class: the elements of an argument list, the
  positional arguments of the worker function and its return values. A unit of work
  that returns nothing returns \<open>PNone\<close>.
\<close>

datatype pyval =
    PNone
  | PInt int
  | PStr string
  | PTuple "pyval list"
  | PList "pyval list"

text \<open>
  Exceptions, by class. \<open>TypeError\<close> is what \<open>set_allargs\<close> raises (its message is
  dropped); \<open>ValueError\<close> is what the pool constructor raises; \<open>UserError\<close> stands for any
  other subclass of \<open>Exception\<close> that a worker function raises.
\<close>

datatype pyexn = TypeError | ValueError | UserError string

text \<open>
  An object of class \<open>ProcessDivisionier\<close>: the three private attributes set by
  \<open>__init__\<close>. The worker function takes its positional arguments and either raises or
  returns a value.
\<close>

record pde =
  f :: "pyval list \<Rightarrow> pyexn + pyval"
  all_args :: "pyval list"
  num_of_process :: int

definition init :: "(pyval list \<Rightarrow> pyexn + pyval) \<Rightarrow> pde" where
  "init func = \<lparr>f = func, all_args = [], num_of_process = 1\<rparr>"

fun is_tuple :: "pyval \<Rightarrow> bool" where
  "is_tuple (PTuple xs) = True"
| "is_tuple v = False"

section \<open>The argument registry\<close>

definition show_args :: "pde \<Rightarrow> pyval list" where
  "show_args s = all_args s"

text \<open>\<open>add_args(*args)\<close>: the positional arguments arrive as one tuple.\<close>

definition add_args :: "pyval list \<Rightarrow> pde \<Rightarrow> pde" where
  "add_args args s =
     (let s1 = s\<lparr>all_args := all_args s @ [PTuple args]\<rparr>
      in s1\<lparr>num_of_process := int (length (all_args s1))\<rparr>)"

text \<open>
  \<open>set_allargs(all_args, mode)\<close>. The statements run in the order of the source: the
  list is cleared when \<open>mode == 'w'\<close>, then the elements are checked, then the list is
  extended and the count recomputed. The result is the exception raised, if any, and the
  object as the call leaves it.
\<close>

definition set_allargs :: "pyval list \<Rightarrow> string \<Rightarrow> pde \<Rightarrow> pyexn option \<times> pde" where
  "set_allargs xs mode s =
     (let s1 = (if mode = ''w'' then s\<lparr>all_args := []\<rparr> else s)
      in if list_ex (\<lambda>args. \<not> is_tuple args) xs then (Some TypeError, s1)
         else
           (let s2 = s1\<lparr>all_args := all_args s1 @ xs\<rparr>
            in (None, s2\<lparr>num_of_process := int (length (all_args s2))\<rparr>)))"

text \<open>
  \<open>set_processes(num_of_process)\<close>: Python's \<open>[tuple()] * n\<close> is the empty list for
  \<open>n \<le> 0\<close>.
\<close>

definition set_processes :: "int \<Rightarrow> pde \<Rightarrow> pde" where
  "set_processes n s =
     (let s1 = s\<lparr>num_of_process := n\<rparr>
      in s1\<lparr>all_args := replicate (nat (num_of_process s1)) (PTuple [])\<rparr>)"

section \<open>The dispatcher\<close>

text \<open>
  \<open>run\<close> uses two libraries, \<open>concurrent.futures\<close> and \<open>tqdm\<close>. What they do is
  modelled here from their documentation, as far as \<open>run\<close> depends on it.

  \<^item> \<open>ProcessPoolExecutor(max_workers=workers)\<close> raises \<open>ValueError\<close> when
    \<open>workers\<close> is an integer that is not positive; \<open>None\<close> selects the default size.
    (The upper limit of some platforms is not modelled.)
  \<^item> \<open>e.submit(fn, *args)\<close> returns a future. The unit of work runs in a worker
    process; the future ends holding either the value returned or the exception raised.
    A future is represented by that outcome, so every unit of work is taken to finish.
  \<^item> The futures finish in an order that the caller does not control.
  \<^item> A function registered with \<open>add_done_callback\<close> is called exactly once with the
    future, when the future is finished. If the function raises a subclass of
    \<open>Exception\<close>, the exception is logged and ignored.
  \<^item> Leaving the \<open>with\<close> block shuts the pool down and waits for it, so every
    callback has run when \<open>run\<close> reaches its \<open>return\<close>.
  \<^item> The progress sink is the sequence of events it receives: the total given to the
    \<open>tqdm\<close> constructor and every \<open>update\<close>.
\<close>

type_synonym future = "pyexn + pyval"

datatype event = Submit "pyval list" | Total nat | Advance nat

fun is_Advance :: "event \<Rightarrow> bool" where
  "is_Advance (Advance k) = True"
| "is_Advance ev = False"

fun is_Submit :: "event \<Rightarrow> bool" where
  "is_Submit (Submit xs) = True"
| "is_Submit ev = False"

definition pool_size_ok :: "int option \<Rightarrow> bool" where
  "pool_size_ok workers = (case workers of None \<Rightarrow> True | Some w \<Rightarrow> 0 < w)"

text \<open>
  The unpacking \<open>*args\<close> of the call \<open>e.submit(self.__f, *args)\<close>: any iterable is
  accepted, anything else raises \<open>TypeError\<close> in the caller.
\<close>

fun unpack :: "pyval \<Rightarrow> pyexn + pyval list" where
  "unpack (PTuple xs) = Inr xs"
| "unpack (PList xs) = Inr xs"
| "unpack (PStr cs) = Inr (map (\<lambda>c. PStr [c]) cs)"
| "unpack PNone = Inl TypeError"
| "unpack (PInt n) = Inl TypeError"

text \<open>
  The list comprehension \<open>[e.submit(self.__f, *args) for args in self.__all_args]\<close>:
  the futures in registry order, with the submissions made. An element that cannot be
  unpacked ends the comprehension with its exception; the units before it have been
  submitted.
\<close>

fun submit_all ::
  "(pyval list \<Rightarrow> pyexn + pyval) \<Rightarrow> pyval list \<Rightarrow> pyexn option \<times> future list \<times> event list" where
  "submit_all func [] = (None, [], [])"
| "submit_all func (args # rest) =
     (case unpack args of
        Inl e \<Rightarrow> (Some e, [], [])
      | Inr xs \<Rightarrow>
          (case submit_all func rest of
             (r, fs, evs) \<Rightarrow> (r, func xs # fs, Submit xs # evs)))"

text \<open>
  The order in which the futures finish. It is chosen by the environment: the schedule
  is a sequence of choices, each placing one future among those submitted after it.
  Every schedule gives a permutation of the futures and every permutation is given by
  some schedule (\<open>mset_completion_order\<close> and \<open>completion_order_complete\<close> below).
\<close>

fun completion_order :: "nat list \<Rightarrow> 'a list \<Rightarrow> 'a list" where
  "completion_order cs [] = []"
| "completion_order [] (x # xs) = x # xs"
| "completion_order (c # cs) (x # xs) =
     (let later = completion_order cs xs; i = c mod (length later + 1)
      in take i later @ x # drop i later)"

text \<open>
  The callback \<open>update\<close>, a closure over \<open>pbar\<close> and \<open>results\<close>: the captured
  variables are its state. It returns the exception it raises, if any, with the state
  as it leaves it: the progress bar has advanced before the exception is looked at.
\<close>

definition update ::
  "future \<Rightarrow> event list \<times> pyval list \<Rightarrow> pyexn option \<times> event list \<times> pyval list" where
  "update future st =
     (case st of (pbar, results) \<Rightarrow>
        (let pbar1 = pbar @ [Advance 1]
         in case future of
              Inl exception \<Rightarrow> (Some exception, pbar1, results)
            | Inr v \<Rightarrow> (None, pbar1, results @ [v])))"

text \<open>
  How the library calls a done-callback: what the callback raises is logged and ignored,
  what it did to its state stays.
\<close>

definition invoke_callback ::
  "(future \<Rightarrow> 'st \<Rightarrow> pyexn option \<times> 'st) \<Rightarrow> future \<Rightarrow> 'st \<Rightarrow> 'st" where
  "invoke_callback fn future st = snd (fn future st)"

text \<open>
  \<open>run(workers, all_args)\<close> under a schedule. The result is what the call returns or
  raises, the object as the call leaves it, and the events in the order they happen.
\<close>

definition run ::
  "int option \<Rightarrow> pyval list option \<Rightarrow> nat list \<Rightarrow> pde \<Rightarrow> (pyexn + pyval list) \<times> pde \<times> event list" where
  "run workers override sched s =
     (case (case override of None \<Rightarrow> (None, s) | Some xs \<Rightarrow> set_allargs xs ''w'' s) of
        (Some e, s1) \<Rightarrow> (Inl e, s1, [])
      | (None, s1) \<Rightarrow>
          if \<not> pool_size_ok workers then (Inl ValueError, s1, [])
          else
            (case submit_all (f s1) (all_args s1) of
               (Some e, fs, evs) \<Rightarrow> (Inl e, s1, evs)
             | (None, fs, evs) \<Rightarrow>
                 (case fold (invoke_callback update) (completion_order sched fs)
                         ([Total (length fs)], []) of
                    (pbar, results) \<Rightarrow> (Inr results, s1, evs @ pbar))))"

section \<open>Worker functions of the scenarios\<close>

text \<open>
  Modelled from the spec: the worker function \<open>square(x) = x*x\<close> of the concrete
  scenario, which is supplied by the caller and is not part of the module. Called with
  anything but one integer it raises \<open>TypeError\<close>, as Python does for a wrong number of
  arguments and for \<open>x*x\<close> on the other values modelled.
\<close>

fun square :: "pyval list \<Rightarrow> pyexn + pyval" where
  "square [PInt x] = Inr (PInt (x * x))"
| "square args = Inl TypeError"

text \<open>
  Modelled from the spec: the worker function of the failure scenario, which raises
  \<open>ValueError\<close> when \<open>x == 3\<close>. Elsewhere it squares, like the one above.
\<close>

fun square_unless_3 :: "pyval list \<Rightarrow> pyexn + pyval" where
  "square_unless_3 [PInt x] = (if x = 3 then Inl ValueError else Inr (PInt (x * x)))"
| "square_unless_3 args = Inl TypeError"

text \<open>An object with two registered tuples, used to instantiate the theorems.\<close>

definition two_units :: pde where
  "two_units = add_args [PInt 2] (add_args [PInt 1] (init square))"

text \<open>The registry of the scenarios: \<open>[(1,), (2,), (3,), (4,)]\<close>.\<close>

definition four_units :: "(pyval list \<Rightarrow> pyexn + pyval) \<Rightarrow> pde" where
  "four_units func =
     add_args [PInt 4] (add_args [PInt 3] (add_args [PInt 2] (add_args [PInt 1] (init func))))"

section \<open>Auxiliary functions for the statements\<close>

text \<open>The items of a registered tuple: the positional arguments of its unit of work.\<close>

fun tuple_items :: "pyval \<Rightarrow> pyval list" where
  "tuple_items (PTuple xs) = xs"
| "tuple_items v = []"

text \<open>The values of the futures that ended with a value, in the order of the list.\<close>

fun values_of :: "future list \<Rightarrow> pyval list" where
  "values_of [] = []"
| "values_of (Inl e # fs) = values_of fs"
| "values_of (Inr v # fs) = v # values_of fs"

section \<open>Properties of the registry\<close>

lemma list_ex_not_tuple: "list_ex (\<lambda>args. \<not> is_tuple args) xs = (\<not> list_all is_tuple xs)"
  by (induction xs) auto

lemma set_allargs_ok:
  assumes "list_all is_tuple xs"
  shows "set_allargs xs mode s =
    (None, s\<lparr>all_args := (if mode = ''w'' then [] else all_args s) @ xs,
             num_of_process := int (length ((if mode = ''w'' then [] else all_args s) @ xs))\<rparr>)"
  using assms by (simp add: set_allargs_def list_ex_not_tuple Let_def)

lemma set_allargs_fails:
  assumes "\<not> list_all is_tuple xs"
  shows "set_allargs xs mode s =
    (Some TypeError, if mode = ''w'' then s\<lparr>all_args := []\<rparr> else s)"
  using assms by (simp add: set_allargs_def list_ex_not_tuple Let_def)

text \<open>
  Every operation of the class keeps the registry a list of tuples, so that is what a
  registry is in the statements about \<open>run\<close> below.
\<close>

lemma registry_holds_tuples:
  "list_all is_tuple (all_args (init func))"
  "list_all is_tuple (all_args s) \<Longrightarrow> list_all is_tuple (all_args (add_args args s))"
  "list_all is_tuple (all_args s) \<Longrightarrow> list_all is_tuple (all_args (snd (set_allargs xs mode s)))"
  "list_all is_tuple (all_args (set_processes n s))"
  by (auto simp add: init_def add_args_def set_allargs_def set_processes_def Let_def
      list_ex_not_tuple list_all_iff)

lemma two_units_eq:
  "two_units = \<lparr>f = square, all_args = [PTuple [PInt 1], PTuple [PInt 2]], num_of_process = 2\<rparr>"
  by (simp add: two_units_def add_args_def init_def Let_def)

text \<open>
  C4: for every prior state and every sequence of tuples, \<open>set_allargs(tuples, 'w')\<close>
  followed by \<open>show_args()\<close> yields exactly \<open>tuples\<close> in the given order, and
  \<open>set_allargs(tuples, 'a')\<close> followed by \<open>show_args()\<close> yields the prior contents
  followed by \<open>tuples\<close>. Neither call raises.
\<close>

theorem set_allargs_then_show_args:
  assumes "list_all is_tuple tuples"
  shows "fst (set_allargs tuples ''w'' s) = None
       \<and> show_args (snd (set_allargs tuples ''w'' s)) = tuples
       \<and> fst (set_allargs tuples ''a'' s) = None
       \<and> show_args (snd (set_allargs tuples ''a'' s)) = show_args s @ tuples"
  using assms by (simp add: set_allargs_ok show_args_def)

theorem set_allargs_then_show_args_witness:
  "list_all is_tuple [PTuple [PInt 5], PTuple []]
   \<and> show_args (snd (set_allargs [PTuple [PInt 5], PTuple []] ''w'' two_units))
       = [PTuple [PInt 5], PTuple []]
   \<and> show_args (snd (set_allargs [PTuple [PInt 5], PTuple []] ''a'' two_units))
       = [PTuple [PInt 1], PTuple [PInt 2], PTuple [PInt 5], PTuple []]"
  using set_allargs_then_show_args [of "[PTuple [PInt 5], PTuple []]" two_units]
  by (simp add: two_units_eq show_args_def)

text \<open>
  C5: for every \<open>n \<ge> 0\<close> and every prior registry, \<open>set_processes(n)\<close> replaces the
  registry with exactly \<open>n\<close> empty tuples and sets the cached unit count to \<open>n\<close>; the
  worker function stays.
\<close>

theorem set_processes_uniform:
  assumes "0 \<le> n"
  shows "all_args (set_processes n s) = replicate (nat n) (PTuple [])
       \<and> int (length (all_args (set_processes n s))) = n
       \<and> num_of_process (set_processes n s) = n
       \<and> f (set_processes n s) = f s"
  using assms by (simp add: set_processes_def Let_def)

theorem set_processes_uniform_witness:
  "(0::int) \<le> 5
   \<and> all_args (set_processes 5 two_units)
       = [PTuple [], PTuple [], PTuple [], PTuple [], PTuple []]
   \<and> num_of_process (set_processes 5 two_units) = 5"
  using set_processes_uniform [of 5 two_units]
  by (simp add: numeral_eq_Suc)

text \<open>
  C9: after \<open>add_args\<close>, after every call of \<open>set_allargs\<close> that does not raise, and
  after \<open>set_processes(n)\<close> with \<open>n \<ge> 0\<close>, the cached unit count equals the length of
  the argument list.
\<close>

theorem count_is_length:
  "num_of_process (add_args args s) = int (length (all_args (add_args args s)))
   \<and> (fst (set_allargs xs mode s) = None \<longrightarrow>
        num_of_process (snd (set_allargs xs mode s))
          = int (length (all_args (snd (set_allargs xs mode s)))))
   \<and> (0 \<le> n \<longrightarrow>
        num_of_process (set_processes n s) = int (length (all_args (set_processes n s))))"
  by (simp add: add_args_def set_allargs_def set_processes_def Let_def)

theorem count_is_length_witness:
  "fst (set_allargs [PTuple [PInt 5]] ''a'' (init square)) = None
   \<and> num_of_process (snd (set_allargs [PTuple [PInt 5]] ''a'' (init square))) = 1
   \<and> length (all_args (snd (set_allargs [PTuple [PInt 5]] ''a'' (init square)))) = 1
   \<and> (0::int) \<le> 3
   \<and> num_of_process (set_processes 3 (init square)) = 3
   \<and> length (all_args (set_processes 3 (init square))) = 3
   \<and> num_of_process (add_args [PInt 9] (init square)) = 1
   \<and> length (all_args (add_args [PInt 9] (init square))) = 1"
  using count_is_length [of "[PInt 9]" "init square" "[PTuple [PInt 5]]" "''a''" 3]
  by (simp add: set_allargs_def set_processes_def add_args_def init_def Let_def)

text \<open>
  C10: in append mode, \<open>set_allargs(tuples, 'a')\<close> with a sequence that contains an
  element that is not a tuple raises \<open>TypeError\<close> and leaves the registry and the cached
  unit count as they were: the elements are checked before the list is extended.
\<close>

theorem set_allargs_append_rejects:
  assumes "list_ex (\<lambda>args. \<not> is_tuple args) xs"
  shows "set_allargs xs ''a'' s = (Some TypeError, s)"
  using assms by (simp add: set_allargs_def)

theorem set_allargs_append_rejects_witness:
  "list_ex (\<lambda>args. \<not> is_tuple args) [PTuple [PInt 5], PInt 6]
   \<and> set_allargs [PTuple [PInt 5], PInt 6] ''a'' two_units = (Some TypeError, two_units)
   \<and> all_args two_units = [PTuple [PInt 1], PTuple [PInt 2]]
   \<and> num_of_process two_units = 2"
  using set_allargs_append_rejects [of "[PTuple [PInt 5], PInt 6]" two_units]
  by (simp add: two_units_eq)

text \<open>
  C2: a call of \<open>set_allargs\<close> with an element that is not a tuple should raise and leave
  the registry and the cached unit count as they were, in either mode. In overwrite mode
  the list is cleared before the elements are checked: on the registry
  \<open>[(1,), (2,)]\<close> the call \<open>set_allargs([5], 'w')\<close> raises \<open>TypeError\<close> and leaves an
  empty registry with the cached unit count still 2.
\<close>

theorem set_allargs_overwrite_clears_on_error:
  "set_allargs [PInt 5] ''w'' two_units
     = (Some TypeError, \<lparr>f = square, all_args = [], num_of_process = 2\<rparr>)
   \<and> all_args two_units = [PTuple [PInt 1], PTuple [PInt 2]]
   \<and> snd (set_allargs [PInt 5] ''w'' two_units) \<noteq> two_units"
  by (simp add: set_allargs_def two_units_eq)

section \<open>Properties of the dispatcher\<close>

lemma mset_completion_order: "mset (completion_order cs xs) = mset xs"
proof (induction cs xs rule: completion_order.induct)
  case (3 c cs x xs)
  define later where "later = completion_order cs xs"
  define i where "i = c mod (length later + 1)"
  have "mset later = mset (take i later) + mset (drop i later)"
    by (metis append_take_drop_id mset_append)
  then have "mset (take i later @ x # drop i later) = add_mset x (mset later)"
    by simp
  also have "\<dots> = add_mset x (mset xs)"
    using 3 by (simp add: later_def)
  finally show ?case
    by (simp add: Let_def later_def i_def)
qed simp_all

lemma length_completion_order: "length (completion_order cs xs) = length xs"
  using mset_completion_order [of cs xs] by (metis size_mset)

lemma completion_order_complete:
  "mset ys = mset xs \<Longrightarrow> \<exists>cs. completion_order cs xs = ys"
proof (induction xs arbitrary: ys)
  case Nil
  then show ?case by simp
next
  case (Cons x xs)
  from Cons.prems have "x \<in> set ys"
    by (metis list.set_intros(1) set_mset_mset)
  then obtain as bs where ys: "ys = as @ x # bs"
    by (auto dest: split_list)
  with Cons.prems have "mset (as @ bs) = mset xs" by simp
  then obtain cs where cs: "completion_order cs xs = as @ bs"
    using Cons.IH by blast
  have "completion_order (length as # cs) (x # xs) = ys"
    by (simp add: cs ys Let_def)
  then show ?case by blast
qed

lemma invoke_update:
  "invoke_callback update fut (pbar, results)
     = (pbar @ [Advance 1], results @ values_of [fut])"
  by (cases fut) (simp_all add: invoke_callback_def update_def)

lemma fold_update:
  "fold (invoke_callback update) fs (pbar, results)
     = (pbar @ replicate (length fs) (Advance 1), results @ values_of fs)"
proof (induction fs arbitrary: pbar results)
  case Nil
  then show ?case by simp
next
  case (Cons fut fs)
  have "values_of (fut # fs) = values_of [fut] @ values_of fs"
    by (cases fut) simp_all
  then show ?case
    by (simp add: invoke_update Cons.IH replicate_app_Cons_same del: values_of.simps)
qed

lemma submit_all_tuples:
  "list_all is_tuple xs \<Longrightarrow>
   submit_all func xs
     = (None, map (\<lambda>a. func (tuple_items a)) xs, map (\<lambda>a. Submit (tuple_items a)) xs)"
proof (induction xs)
  case Nil
  then show ?case by simp
next
  case (Cons a xs)
  then show ?case by (cases a) simp_all
qed

lemma run_registered:
  assumes "pool_size_ok workers" and "list_all is_tuple (all_args s)"
  shows "run workers None sched s =
    (Inr (values_of (completion_order sched (map (\<lambda>a. f s (tuple_items a)) (all_args s)))),
     s,
     map (\<lambda>a. Submit (tuple_items a)) (all_args s)
       @ Total (length (all_args s)) # replicate (length (all_args s)) (Advance 1))"
  using assms
  by (simp add: run_def submit_all_tuples fold_update length_completion_order)


lemma four_units_eq:
  "four_units func =
     \<lparr>f = func,
      all_args = [PTuple [PInt 1], PTuple [PInt 2], PTuple [PInt 3], PTuple [PInt 4]],
      num_of_process = 4\<rparr>"
  by (simp add: four_units_def add_args_def init_def Let_def)

lemma mset_values_of:
  "mset (values_of fs) = image_mset projr (filter_mset (\<lambda>fut. \<not> isl fut) (mset fs))"
  by (induction fs rule: values_of.induct) simp_all

lemma mset_values_of_completion_order:
  "mset (values_of (completion_order sched fs)) = mset (values_of fs)"
  by (simp add: mset_values_of mset_completion_order)

text \<open>
  Whatever the units of work do, \<open>run\<close> on a registry of tuples returns the values of
  the units that succeeded: an exception of a unit is raised inside the callback only,
  where the library drops it.
\<close>

lemma run_never_raises_for_a_unit:
  assumes "pool_size_ok workers" and "list_all is_tuple (all_args s)"
  shows "\<exists>results. fst (run workers None sched s) = Inr results
           \<and> mset results = mset (values_of (map (\<lambda>a. f s (tuple_items a)) (all_args s)))"
  using assms by (simp add: run_registered mset_values_of_completion_order)

text \<open>
  C3: for every registry of \<open>n\<close> tuples (\<open>n = 0\<close> included) and every worker function
  that succeeds on each of the registered tuples, \<open>run()\<close> returns a list of exactly \<open>n\<close>
  results and the progress sink receives exactly \<open>n\<close> advance-by-1 events, in every
  completion order and for every pool size that the pool accepts (the default among
  them). The registry is left as it was. A worker function that succeeds on every
  argument list is a special case.
\<close>

theorem run_all_succeed:
  assumes "pool_size_ok workers"
    and "list_all is_tuple (all_args s)"
    and "\<forall>a \<in> set (all_args s). \<exists>v. f s (tuple_items a) = Inr v"
  shows "\<exists>results evs.
           run workers None sched s = (Inr results, s, evs)
         \<and> length results = length (all_args s)
         \<and> filter is_Advance evs = replicate (length (all_args s)) (Advance 1)"
proof -
  let ?fs = "map (\<lambda>a. f s (tuple_items a)) (all_args s)"
  have ok: "\<forall>fut \<in> set (completion_order sched ?fs). \<exists>v. fut = Inr v"
  proof
    fix fut assume "fut \<in> set (completion_order sched ?fs)"
    then have "fut \<in> set ?fs"
      by (metis mset_completion_order set_mset_mset)
    then show "\<exists>v. fut = Inr v" using assms(3) by auto
  qed
  have len: "length (values_of fs) = length fs" if "\<forall>fut \<in> set fs. \<exists>v. fut = Inr v" for fs
    using that by (induction fs) auto
  have "length (values_of (completion_order sched ?fs)) = length (all_args s)"
    using len [OF ok] by (simp add: length_completion_order)
  moreover have "filter is_Advance (map (\<lambda>a. Submit (tuple_items a)) xs) = []" for xs
    by (induction xs) simp_all
  ultimately show ?thesis
    using assms(1,2) by (simp add: run_registered)
qed

theorem run_all_succeed_witness:
  "pool_size_ok (Some 3)
   \<and> list_all is_tuple (all_args two_units)
   \<and> all_args two_units = [PTuple [PInt 1], PTuple [PInt 2]]
   \<and> f two_units (tuple_items (PTuple [PInt 1])) = Inr (PInt 1)
   \<and> f two_units (tuple_items (PTuple [PInt 2])) = Inr (PInt 4)
   \<and> (\<exists>evs. run (Some 3) None [1] two_units = (Inr [PInt 4, PInt 1], two_units, evs)
        \<and> filter is_Advance evs = [Advance 1, Advance 1])
   \<and> pool_size_ok None
   \<and> (\<exists>evs. run None None [] (init square) = (Inr [], init square, evs)
        \<and> filter is_Advance evs = [])"
  using run_all_succeed [of "Some 3" two_units "[1]"]
    run_all_succeed [of None "init square" "[]"]
  by (simp add: run_def pool_size_ok_def two_units_eq init_def
      invoke_callback_def update_def)

text \<open>
  C7: when \<open>run\<close> is called without an argument list (\<open>all_args=None\<close>), the object is
  after the call exactly as before it, registry and cached unit count included, whether
  the call returns or raises.
\<close>

theorem run_keeps_registry:
  "fst (snd (run workers None sched s)) = s"
  by (simp add: run_def split: prod.splits option.splits)

theorem run_keeps_registry_witness:
  "fst (snd (run (Some 2) None [1] two_units)) = two_units
   \<and> all_args two_units = [PTuple [PInt 1], PTuple [PInt 2]]
   \<and> num_of_process two_units = 2"
  using run_keeps_registry [of "Some 2" "[1]" two_units]
  by (simp add: two_units_eq)

text \<open>
  C6: for every sequence of tuples \<open>T\<close> given as \<open>all_args\<close>, \<open>run\<close> first replaces the
  registry by exactly \<open>T\<close> (overwrite mode) and only then submits: the call is the call
  without an argument list on the object whose registry is \<open>T\<close>, the registry is \<open>T\<close>
  afterwards, and when the pool is created the units submitted are those of \<open>T\<close>, in
  order.
\<close>

theorem run_override_replaces_first:
  assumes "list_all is_tuple T"
  shows "run workers (Some T) sched s
           = run workers None sched (s\<lparr>all_args := T, num_of_process := int (length T)\<rparr>)
       \<and> all_args (fst (snd (run workers (Some T) sched s))) = T
       \<and> (pool_size_ok workers \<longrightarrow>
            filter is_Submit (snd (snd (run workers (Some T) sched s)))
              = map (\<lambda>a. Submit (tuple_items a)) T)"
proof -
  let ?s1 = "s\<lparr>all_args := T, num_of_process := int (length T)\<rparr>"
  have eq: "run workers (Some T) sched s = run workers None sched ?s1"
    using assms by (simp add: run_def set_allargs_ok)
  have sub: "filter is_Submit (map (\<lambda>a. Submit (tuple_items a)) xs)
               = map (\<lambda>a. Submit (tuple_items a)) xs" for xs
    by (induction xs) simp_all
  have adv: "filter is_Submit (replicate n (Advance 1)) = []" for n
    by (induction n) simp_all
  have "pool_size_ok workers \<longrightarrow>
          filter is_Submit (snd (snd (run workers None sched ?s1)))
            = map (\<lambda>a. Submit (tuple_items a)) T"
    using assms by (simp add: run_registered sub adv)
  moreover have "fst (snd (run workers None sched ?s1)) = ?s1"
    by (simp add: run_def split: prod.splits option.splits)
  ultimately show ?thesis
    using eq by simp
qed

theorem run_override_replaces_first_witness:
  "list_all is_tuple [PTuple [PInt 3]] \<and> pool_size_ok (Some 2)
   \<and> run (Some 2) (Some [PTuple [PInt 3]]) [] two_units
       = (Inr [PInt 9], \<lparr>f = square, all_args = [PTuple [PInt 3]], num_of_process = 1\<rparr>,
          [Submit [PInt 3], Total 1, Advance 1])"
  using run_override_replaces_first [of "[PTuple [PInt 3]]" "Some 2" "[]" two_units]
  by (simp add: run_def set_allargs_def two_units_eq pool_size_ok_def
      invoke_callback_def update_def)

text \<open>
  C8: with the worker function \<open>square\<close> and the registry \<open>[(1,), (2,), (3,), (4,)]\<close>,
  \<open>run(workers=2)\<close> returns, in every completion order, a list whose elements are
  exactly 1, 4, 9 and 16 as a multiset, and the progress sink receives exactly 4
  advance-by-1 events.
\<close>

theorem run_square:
  "\<exists>results evs.
      run (Some 2) None sched (four_units square) = (Inr results, four_units square, evs)
    \<and> mset results = {#PInt 1, PInt 4, PInt 9, PInt 16#}
    \<and> filter is_Advance evs = replicate 4 (Advance 1)"
proof -
  let ?s = "four_units square"
  let ?fs = "map (\<lambda>a. f ?s (tuple_items a)) (all_args ?s)"
  have ok: "pool_size_ok (Some 2)" "list_all is_tuple (all_args ?s)"
    by (simp_all add: pool_size_ok_def four_units_eq)
  have "mset (values_of (completion_order sched ?fs)) = mset (values_of ?fs)"
    by (rule mset_values_of_completion_order)
  also have "\<dots> = {#PInt 1, PInt 4, PInt 9, PInt 16#}"
    by (simp add: four_units_eq)
  finally have res: "mset (values_of (completion_order sched ?fs))
                       = {#PInt 1, PInt 4, PInt 9, PInt 16#}" .
  have evs: "filter is_Advance
               (map (\<lambda>a. Submit (tuple_items a)) (all_args ?s)
                  @ Total (length (all_args ?s)) # replicate (length (all_args ?s)) (Advance 1))
             = replicate 4 (Advance 1)"
    by (simp add: four_units_eq numeral_eq_Suc)
  show ?thesis
    unfolding run_registered [OF ok] using res evs by blast
qed

theorem run_square_witness:
  "run (Some 2) None [1, 2, 1] (four_units square)
     = (Inr [PInt 16, PInt 1, PInt 9, PInt 4], four_units square,
        [Submit [PInt 1], Submit [PInt 2], Submit [PInt 3], Submit [PInt 4],
         Total 4, Advance 1, Advance 1, Advance 1, Advance 1])"
  using run_square [of "[1, 2, 1]"]
  by (simp add: run_def four_units_eq pool_size_ok_def invoke_callback_def update_def)

text \<open>
  C1: when a unit of work raises, \<open>run()\<close> should propagate that failure and return no
  result list. With the registry \<open>[(1,), (2,), (3,), (4,)]\<close> and a worker function that
  raises \<open>ValueError\<close> at 3, \<open>run()\<close> returns the list of the three other results:
  the \<open>raise\<close> in the callback does not reach the caller.
\<close>

theorem run_returns_partial_results:
  "run None None [] (four_units square_unless_3)
     = (Inr [PInt 1, PInt 4, PInt 16], four_units square_unless_3,
        [Submit [PInt 1], Submit [PInt 2], Submit [PInt 3], Submit [PInt 4],
         Total 4, Advance 1, Advance 1, Advance 1, Advance 1])"
  by (simp add: run_def four_units_eq pool_size_ok_def invoke_callback_def update_def)

text \<open>The same in every completion order.\<close>

lemma run_partial_results_any_order:
  "\<exists>results. fst (run None None sched (four_units square_unless_3)) = Inr results
     \<and> mset results = {#PInt 1, PInt 4, PInt 16#}"
  using run_never_raises_for_a_unit [of None "four_units square_unless_3" sched]
  by (simp add: pool_size_ok_def four_units_eq)

end
